theory Spec2Isabelle
  imports Complex_Main
begin

section \<open>Input: decoded JSON lines, files and command-line options\<close>

text \<open>
  The program \<^verbatim>\<open>unbabel_cli.py\<close> reads a text file of JSON lines into a pandas
  DataFrame and transforms it column by column. The standard library and pandas are
  not part of the program, so they enter the model as follows.
  \<^item> \<^verbatim>\<open>json.loads\<close>: a line of the file is given already decoded, either as an object
    (its items, keys unique) or as \<open>Undecodable\<close> when \<^verbatim>\<open>json.loads\<close> raises
    \<^verbatim>\<open>ValueError\<close>.
  \<^item> \<^verbatim>\<open>open\<close>: the file system is a map from paths to files; a path outside its
    domain raises \<^verbatim>\<open>FileNotFoundError\<close>.
  \<^item> \<^verbatim>\<open>pd.to_datetime\<close> and \<^verbatim>\<open>re.search\<close> (behind \<^verbatim>\<open>Series.str.contains\<close>) are
    parameters of the model: \<open>parse\<close> tells for a JSON value whether pandas raises,
    reads it as the missing instant NaT, or reads it as an instant (nanoseconds since the
    epoch), and \<open>re\<close> tells whether a pattern is found in a string.
  \<^item> Instants are integers (nanoseconds since the epoch, as in \<^verbatim>\<open>Timestamp.value\<close>),
    which pandas keeps in 64 bits; durations and means are rationals, and \<open>None\<close> in a
    numeric cell is NaN.
\<close>

datatype jvalue = JNull | JBool bool | JNum rat | JStr string

type_synonym jobject = "(string \<times> jvalue) list"

datatype line = Decoded jobject | Undecodable

type_synonym filesystem = "string \<rightharpoonup> line list"

record options =
  input_file :: string
  window :: "int option"
  client :: string
  source :: string
  target :: string

text \<open>The defaults that \<^verbatim>\<open>setup\<close> gives \<^verbatim>\<open>argparse\<close> for the optional arguments.\<close>

definition setup_defaults :: "string \<Rightarrow> options" where
  "setup_defaults path =
     \<lparr>input_file = path, window = None, client = ''.*'', source = ''.*'', target = ''.*''\<rparr>"

text \<open>
  The ways a run ends without data output. The first three are the early returns of
  lines 13 to 26, each after printing its message. \<open>Uncaught\<close> is an exception that no
  handler encloses: \<open>ParseError\<close> from \<^verbatim>\<open>pd.to_datetime\<close> (line 28), \<open>IndexError\<close> from
  \<^verbatim>\<open>df.index[-1]\<close> on an empty frame (line 46) and \<open>OverflowError\<close> from
  \<^verbatim>\<open>pd.Timedelta\<close> (line 48). \<open>OutsideModel\<close> marks the inputs on which this model
  stops: a record whose timestamp is missing or NaT, or without a numeric duration or
  without string values in the three filtered fields, where pandas goes on with NaT and
  NaN cells; and a cutoff instant that does not fit 64 bits, where the behaviour of
  pandas depends on its version.
\<close>

datatype exception = ParseError | IndexError | OverflowError

datatype error = InputNotFound | MalformedInput | SchemaError | Uncaught exception | OutsideModel

text \<open>The message the program itself prints before an early return.\<close>

definition diagnostic :: "error \<Rightarrow> string option" where
  "diagnostic e = (case e of
       InputNotFound \<Rightarrow> Some ''Can't find that file. Exiting...''
     | MalformedInput \<Rightarrow>
         Some ''That's not what I expected :(  (needs to be a text file with json lines). Exiting...''
     | SchemaError \<Rightarrow> Some ''Can't find all the relevant fields to work with. Exiting...''
     | Uncaught x \<Rightarrow> None
     | OutsideModel \<Rightarrow> None)"

section \<open>Ingestion and validation (lines 13 to 37)\<close>

definition required_fields :: "string list" where
  "required_fields =
     [''timestamp'', ''duration'', ''client_name'', ''source_language'', ''target_language'']"

fun decoded :: "line list \<Rightarrow> jobject list" where
  "decoded [] = []"
| "decoded (Decoded obj # ls) = obj # decoded ls"
| "decoded (Undecodable # ls) = decoded ls"

text \<open>\<^verbatim>\<open>df.columns\<close>: the union of the keys of all records.\<close>

definition columns :: "jobject list \<Rightarrow> string list" where
  "columns df = remdups (concat (map (map fst) df))"

definition load :: "filesystem \<Rightarrow> string \<Rightarrow> error + jobject list" where
  "load fs path =
     (case fs path of
        None \<Rightarrow> Inl InputNotFound
      | Some json_file \<Rightarrow>
          (if Undecodable \<in> set json_file then Inl MalformedInput
           else (let df = decoded json_file
                 in if set required_fields \<subseteq> set (columns df) then Inr df
                    else Inl SchemaError)))"

text \<open>
  What \<^verbatim>\<open>pd.to_datetime\<close> does with one value: it raises, or it gives the missing
  instant NaT without raising (as for the strings \<^verbatim>\<open>''\<close> and \<^verbatim>\<open>'NaT'\<close>), or it gives
  an instant.
\<close>

datatype parsed = Raises | NaT | Instant int

text \<open>
  \<^verbatim>\<open>pd.to_datetime(df['timestamp'])\<close> raises when it raises on a present value; a
  missing value or \<^verbatim>\<open>null\<close> becomes NaT without an exception.
\<close>

definition timestamp_fails :: "(jvalue \<Rightarrow> parsed) \<Rightarrow> jobject \<Rightarrow> bool" where
  "timestamp_fails parse obj =
     (case map_of obj ''timestamp'' of
        None \<Rightarrow> False
      | Some JNull \<Rightarrow> False
      | Some v \<Rightarrow> parse v = Raises)"

record event =
  date :: int
  duration :: rat
  client_name :: string
  source_language :: string
  target_language :: string

definition to_event :: "(jvalue \<Rightarrow> parsed) \<Rightarrow> jobject \<Rightarrow> event option" where
  "to_event parse obj =
     (case (map_of obj ''timestamp'', map_of obj ''duration'', map_of obj ''client_name'',
            map_of obj ''source_language'', map_of obj ''target_language'') of
        (Some ts, Some (JNum d), Some (JStr c), Some (JStr s), Some (JStr t)) \<Rightarrow>
          (if ts = JNull then None
           else (case parse ts of
                   Instant n \<Rightarrow>
                     Some \<lparr>date = n, duration = d, client_name = c,
                           source_language = s, target_language = t\<rparr>
                 | _ \<Rightarrow> None))
      | _ \<Rightarrow> None)"

section \<open>Filter stage (lines 43 to 57)\<close>

definition minute :: int where
  "minute = 60000000000"

text \<open>\<^verbatim>\<open>Series.shift(-1)\<close>: every cell takes the value below it, the last one NaT.\<close>

definition shift_back :: "int list \<Rightarrow> int option list" where
  "shift_back xs = (if xs = [] then [] else map Some (tl xs) @ [None])"

text \<open>A comparison with NaT is false.\<close>

definition cell_gt :: "int option \<Rightarrow> int \<Rightarrow> bool" where
  "cell_gt c k = (case c of None \<Rightarrow> False | Some t \<Rightarrow> k < t)"

text \<open>
  Lines 44 to 46 and 49 on the sorted frame, for a cutoff instant: the rows whose next
  timestamp is after the cutoff. The assignment of line 46 addresses the cell by the
  last index label; the rows that carry that label are the final rows of the sorted
  frame, whose shifted cells hold the same instant, so the assignment is the one to the
  final cell.
\<close>

definition keep_after :: "int \<Rightarrow> event list \<Rightarrow> event list" where
  "keep_after cutoff_time df =
     (let date_temp = map date df;
          next_timestamp = (shift_back date_temp)[length df - 1 := Some (last date_temp)]
      in map fst (filter (\<lambda>(r, nx). cell_gt nx cutoff_time) (zip df next_timestamp)))"

text \<open>
  The values of a \<^verbatim>\<open>Timestamp\<close> and of a \<^verbatim>\<open>Timedelta\<close>: nanoseconds in 64 bits, the
  least value standing for NaT.
\<close>

definition representable :: "int \<Rightarrow> bool" where
  "representable n = (- 9223372036854775807 \<le> n \<and> n \<le> 9223372036854775807)"

text \<open>
  Lines 43 to 49. \<^verbatim>\<open>if options.window:\<close> holds for an integer other than zero. On an
  empty frame \<^verbatim>\<open>df.index[-1]\<close> raises; \<^verbatim>\<open>pd.Timedelta(minutes=...)\<close> raises when the
  window in nanoseconds does not fit 64 bits, which is from 153722868 minutes on.
\<close>

definition cutoff_step :: "int option \<Rightarrow> event list \<Rightarrow> error + event list" where
  "cutoff_step win df =
     (case win of
        None \<Rightarrow> Inr df
      | Some w \<Rightarrow>
          if w = 0 then Inr df
          else if df = [] then Inl (Uncaught IndexError)
          else if \<not> representable (w * minute) then Inl (Uncaught OverflowError)
          else if \<not> representable (date (last df) - w * minute) then Inl OutsideModel
          else Inr (keep_after (date (last df) - w * minute) df))"

definition str_contains :: "(string \<Rightarrow> string \<Rightarrow> bool) \<Rightarrow> string list \<Rightarrow> string \<Rightarrow> bool list" where
  "str_contains re col pat = map (re pat) col"

text \<open>Lines 53 to 57: three boolean columns, joined by \<^verbatim>\<open>&\<close>, select the rows.\<close>

definition pattern_filter :: "(string \<Rightarrow> string \<Rightarrow> bool) \<Rightarrow> options \<Rightarrow> event list \<Rightarrow> event list" where
  "pattern_filter re opts df =
     (let m1 = str_contains re (map source_language df) (source opts);
          m2 = str_contains re (map target_language df) (target opts);
          m3 = str_contains re (map client_name df) (client opts);
          mask = map2 (\<and>) (map2 (\<and>) m1 m2) m3
      in map fst (filter snd (zip df mask)))"

section \<open>Resampling (lines 62 to 65)\<close>

datatype side = ClosedLeft | ClosedRight

text \<open>
  The edges pandas computes for a tick frequency (\<^verbatim>\<open>_adjust_dates_anchored\<close>) from the
  least and the greatest index value: offsets are taken from the start of the first day,
  which is a multiple of one minute.
\<close>

definition range_edges :: "side \<Rightarrow> int \<Rightarrow> int \<Rightarrow> int \<times> int" where
  "range_edges closed_side first_ts last_ts =
     (let foffset = first_ts mod minute; loffset = last_ts mod minute
      in case closed_side of
           ClosedRight \<Rightarrow>
             (if 0 < foffset then first_ts - foffset else first_ts - minute,
              if 0 < loffset then last_ts + (minute - loffset) else last_ts)
         | ClosedLeft \<Rightarrow>
             (if 0 < foffset then first_ts - foffset else first_ts,
              if 0 < loffset then last_ts + (minute - loffset) else last_ts + minute))"

definition date_range :: "int \<Rightarrow> int \<Rightarrow> int list" where
  "date_range start stop =
     map (\<lambda>k. start + int k * minute) [0..<nat ((stop - start) div minute + 1)]"

text \<open>The mean of a column; of no value at all it is NaN.\<close>

definition mean_cell :: "rat list \<Rightarrow> rat option" where
  "mean_cell xs = (if xs = [] then None else Some (sum_list xs / of_nat (length xs)))"

text \<open>
  \<^verbatim>\<open>df.resample('1T', label='right').mean()\<close>. The argument \<^verbatim>\<open>closed\<close> is not given
  and is \<^verbatim>\<open>'left'\<close> for a minute frequency: the bin between two consecutive edges
  holds its left edge, not its right one, and carries the right edge as its label.
\<close>

definition resample_label_right_mean :: "(int \<times> rat) list \<Rightarrow> (int \<times> rat option) list" where
  "resample_label_right_mean df =
     (if df = [] then []
      else let ax = map fst df;
               edges = range_edges ClosedLeft (Min (set ax)) (Max (set ax));
               binner = date_range (fst edges) (snd edges)
           in map (\<lambda>(lo, hi). (hi, mean_cell (map snd (filter (\<lambda>(t, d). lo \<le> t \<and> t < hi) df))))
                  (zip binner (tl binner)))"

fun dropna :: "(int \<times> 'a option) list \<Rightarrow> (int \<times> 'a) list" where
  "dropna [] = []"
| "dropna ((t, None) # df) = dropna df"
| "dropna ((t, Some v) # df) = (t, v) # dropna df"

text \<open>Line 64: the means of the bins, without the bins that hold no record.\<close>

definition bucket_means :: "(int \<times> rat) list \<Rightarrow> (int \<times> rat) list" where
  "bucket_means df = dropna (resample_label_right_mean df)"

text \<open>
  \<^verbatim>\<open>reindex(..., method='pad')\<close>: a new label takes the value of the last row whose
  label is not after it, NaN when there is none.
\<close>

definition pad_value :: "(int \<times> rat) list \<Rightarrow> int \<Rightarrow> rat option" where
  "pad_value df t =
     (case filter (\<lambda>(l, v). l \<le> t) df of [] \<Rightarrow> None | r # rs \<Rightarrow> Some (snd (last (r # rs))))"

text \<open>
  \<^verbatim>\<open>df.resample('1T', closed='right').pad()\<close>: upsampling drops the first edge of a
  right-closed binner (\<^verbatim>\<open>_adjust_binner_for_upsample\<close>) and reindexes on the rest.
\<close>

definition resample_closed_right_pad :: "(int \<times> rat) list \<Rightarrow> (int \<times> rat option) list" where
  "resample_closed_right_pad df =
     (if df = [] then []
      else let ax = map fst df;
               edges = range_edges ClosedRight (Min (set ax)) (Max (set ax));
               binner = date_range (fst edges) (snd edges);
               res_index = tl binner
           in map (\<lambda>t. (t, pad_value df t)) res_index)"

section \<open>Moving average and output projection (lines 68 to 75)\<close>

text \<open>
  The bounds of a fixed window at row \<open>i\<close>: with \<^verbatim>\<open>center=True\<close> the window is moved
  forward by \<open>(window - 1) div 2\<close> rows, which is no row at all for a window of two.
\<close>

definition window_bounds :: "nat \<Rightarrow> bool \<Rightarrow> nat \<Rightarrow> nat \<Rightarrow> nat \<times> nat" where
  "window_bounds window_size center num_values i =
     (let offset = (if center then (int window_size - 1) div 2 else 0);
          end_i = int i + 1 + offset;
          start_i = end_i - int window_size
      in (nat (max 0 (min start_i (int num_values))), nat (max 0 (min end_i (int num_values)))))"

fun observed :: "'a option list \<Rightarrow> 'a list" where
  "observed [] = []"
| "observed (None # xs) = observed xs"
| "observed (Some x # xs) = x # observed xs"

definition rolling_mean :: "nat \<Rightarrow> nat \<Rightarrow> bool \<Rightarrow> rat option list \<Rightarrow> rat option list" where
  "rolling_mean window_size min_periods center xs =
     map (\<lambda>i. let b = window_bounds window_size center (length xs) i;
                  obs = observed (take (snd b - fst b) (drop (fst b) xs))
              in if min_periods \<le> length obs then mean_cell obs else None)
         [0..<length xs]"

text \<open>\<^verbatim>\<open>DataFrame.tail(n)\<close>: the last \<open>n\<close> rows, or all rows but the first \<open>-n\<close>.\<close>

definition tail :: "int \<Rightarrow> 'a list \<Rightarrow> 'a list" where
  "tail n xs = (if 0 \<le> n then drop (length xs - nat n) xs else drop (nat (- n)) xs)"

definition output_projection :: "int option \<Rightarrow> 'a list \<Rightarrow> 'a list" where
  "output_projection w df = (case w of None \<Rightarrow> df | Some n \<Rightarrow> if n \<noteq> 0 then tail n df else df)"

section \<open>The whole run\<close>

type_synonym sample = "int \<times> rat option"

text \<open>Lines 53 to 68, on the frame that the cutoff step leaves.\<close>

definition moving_average_series ::
  "(string \<Rightarrow> string \<Rightarrow> bool) \<Rightarrow> options \<Rightarrow> event list \<Rightarrow> sample list" where
  "moving_average_series re opts rows =
     (let df = pattern_filter re opts rows;
          df = map (\<lambda>r. (date r, duration r)) df;
          df = bucket_means df;
          df = resample_closed_right_pad df;
          average_delivery_time = rolling_mean 2 1 True (map snd df)
      in zip (map fst df) average_delivery_time)"

text \<open>Lines 72 to 75 on top of it.\<close>

definition pipeline :: "(string \<Rightarrow> string \<Rightarrow> bool) \<Rightarrow> options \<Rightarrow> event list \<Rightarrow> sample list" where
  "pipeline re opts rows = output_projection (window opts) (moving_average_series re opts rows)"

text \<open>
  The run. \<^verbatim>\<open>sort_values\<close> (line 37) is modelled by a stable sort; pandas sorts with
  quicksort, which fixes the order of the timestamps but not the order of records with
  equal timestamps.
\<close>

definition engine ::
  "(jvalue \<Rightarrow> parsed) \<Rightarrow> (string \<Rightarrow> string \<Rightarrow> bool) \<Rightarrow> filesystem \<Rightarrow> options \<Rightarrow> error + sample list" where
  "engine parse re fs opts =
     (case load fs (input_file opts) of
        Inl e \<Rightarrow> Inl e
      | Inr df \<Rightarrow>
          (if list_ex (timestamp_fails parse) df then Inl (Uncaught ParseError)
           else (case those (map (to_event parse) df) of
                   None \<Rightarrow> Inl OutsideModel
                 | Some rows \<Rightarrow>
                     (case cutoff_step (window opts) (sort_key date rows) of
                        Inl e \<Rightarrow> Inl e
                      | Inr df \<Rightarrow> Inr (pipeline re opts df)))))"

definition output_rows :: "error + sample list \<Rightarrow> sample list" where
  "output_rows res = (case res of Inl e \<Rightarrow> [] | Inr rows \<Rightarrow> rows)"

section \<open>Reference instances of the two library parameters\<close>

text \<open>
  A part of what \<^verbatim>\<open>pd.to_datetime\<close> reads: a string of the form
  \<^verbatim>\<open>YYYY-MM-DDTHH:MM:SS\<close> is an instant when it fits 64 bits, the empty string and
  the strings that pandas takes for NaT are NaT, and an integer is an instant in
  nanoseconds. On every other value this instance raises, which pandas need not do.
\<close>

definition digit_value :: "char \<Rightarrow> nat option" where
  "digit_value c =
     (let n = (of_char c :: nat) in if 48 \<le> n \<and> n \<le> 57 then Some (n - 48) else None)"

fun number_value :: "nat \<Rightarrow> string \<Rightarrow> nat option" where
  "number_value acc [] = Some acc"
| "number_value acc (c # cs) =
     (case digit_value c of None \<Rightarrow> None | Some d \<Rightarrow> number_value (10 * acc + d) cs)"

definition leap_year :: "nat \<Rightarrow> bool" where
  "leap_year y = (y mod 4 = 0 \<and> (y mod 100 \<noteq> 0 \<or> y mod 400 = 0))"

definition days_in_month :: "nat \<Rightarrow> nat \<Rightarrow> nat" where
  "days_in_month y m =
     (if m = 2 then (if leap_year y then 29 else 28)
      else if m \<in> {4, 6, 9, 11} then 30 else 31)"

definition days_from_civil :: "nat \<Rightarrow> nat \<Rightarrow> nat \<Rightarrow> int" where
  "days_from_civil y m d =
     (let y' = (if m \<le> 2 then int y - 1 else int y);
          era = y' div 400;
          yoe = y' - era * 400;
          doy = (153 * (if 2 < m then int m - 3 else int m + 9) + 2) div 5 + int d - 1;
          doe = yoe * 365 + yoe div 4 - yoe div 100 + doy
      in era * 146097 + doe - 719468)"

definition iso_instant :: "string \<Rightarrow> int option" where
  "iso_instant s =
     (if length s = 19 \<and> s ! 4 = CHR ''-'' \<and> s ! 7 = CHR ''-'' \<and> s ! 10 = CHR ''T''
         \<and> s ! 13 = CHR '':'' \<and> s ! 16 = CHR '':''
      then case (number_value 0 (take 4 s), number_value 0 (take 2 (drop 5 s)),
                 number_value 0 (take 2 (drop 8 s)), number_value 0 (take 2 (drop 11 s)),
                 number_value 0 (take 2 (drop 14 s)), number_value 0 (take 2 (drop 17 s))) of
             (Some y, Some m, Some d, Some hh, Some mm, Some ss) \<Rightarrow>
               if 1 \<le> m \<and> m \<le> 12 \<and> 1 \<le> d \<and> d \<le> days_in_month y m
                  \<and> hh < 24 \<and> mm < 60 \<and> ss < 60
               then Some ((((days_from_civil y m d * 24 + int hh) * 60 + int mm) * 60 + int ss)
                          * 1000000000)
               else None
           | _ \<Rightarrow> None
      else None)"

definition nat_strings :: "string list" where
  "nat_strings = [[], ''NaT'', ''nat'', ''NAT'', ''nan'', ''NaN'', ''NAN'']"

definition iso_to_datetime :: "jvalue \<Rightarrow> parsed" where
  "iso_to_datetime v =
     (case v of
        JStr s \<Rightarrow>
          if s \<in> set nat_strings then NaT
          else (case iso_instant s of
                  Some n \<Rightarrow> if representable n then Instant n else Raises
                | None \<Rightarrow> Raises)
      | JNum n \<Rightarrow>
          if n = of_int \<lfloor>n\<rfloor> \<and> representable \<lfloor>n\<rfloor> then Instant \<lfloor>n\<rfloor> else Raises
      | JNull \<Rightarrow> NaT
      | JBool b \<Rightarrow> Raises)"

text \<open>
  A matcher for the patterns built from literal characters, the dot (any character but
  a line feed) and the star after one of the two, searched at every position of the
  string as \<^verbatim>\<open>re.search\<close> does.
\<close>

datatype item = One char | Many char

fun items :: "string \<Rightarrow> item list" where
  "items [] = []"
| "items [p] = [One p]"
| "items (p # q # ps) = (if q = CHR ''*'' then Many p # items ps else One p # items (q # ps))"

definition atom_matches :: "char \<Rightarrow> char \<Rightarrow> bool" where
  "atom_matches p c = (if p = CHR ''.'' then c \<noteq> CHR 0x0A else p = c)"

fun match_here :: "item list \<Rightarrow> string \<Rightarrow> bool" where
  "match_here [] s = True"
| "match_here (One p # ps) [] = False"
| "match_here (One p # ps) (c # cs) = (atom_matches p c \<and> match_here ps cs)"
| "match_here (Many p # ps) [] = match_here ps []"
| "match_here (Many p # ps) (c # cs) =
     (match_here ps (c # cs) \<or> (atom_matches p c \<and> match_here (Many p # ps) cs))"

fun search_from :: "item list \<Rightarrow> string \<Rightarrow> bool" where
  "search_from ps [] = match_here ps []"
| "search_from ps (c # cs) = (match_here ps (c # cs) \<or> search_from ps cs)"

definition simple_search :: "string \<Rightarrow> string \<Rightarrow> bool" where
  "simple_search pat s = search_from (items pat) s"

section \<open>Concrete inputs\<close>

definition at_minute :: "int \<Rightarrow> event" where
  "at_minute k =
     \<lparr>date = k * minute, duration = 1, client_name = ''acme'',
      source_language = ''en'', target_language = ''fr''\<rparr>"

definition sample_event :: "string \<Rightarrow> string \<Rightarrow> string \<Rightarrow> event" where
  "sample_event c s t =
     \<lparr>date = 0, duration = 1, client_name = c, source_language = s, target_language = t\<rparr>"

definition translation :: "string \<Rightarrow> rat \<Rightarrow> jobject" where
  "translation ts d =
     [(''timestamp'', JStr ts), (''duration'', JNum d), (''client_name'', JStr ''acme''),
      (''source_language'', JStr ''en''), (''target_language'', JStr ''fr'')]"

definition two_lines :: "line list" where
  "two_lines =
     [Decoded (translation ''2020-01-01T00:00:00'' 5),
      Decoded (translation ''2020-01-01T00:02:30'' 15)]"

section \<open>Ingestion: the three handled failures and the unhandled one\<close>

lemma load_schema_error:
  assumes "fs path = Some json_file" "Undecodable \<notin> set json_file"
    and "\<not> set required_fields \<subseteq> set (columns (decoded json_file))"
  shows "load fs path = Inl SchemaError"
  using assms by (simp add: load_def)

lemma set_columns: "set (columns df) = (\<Union>obj\<in>set df. fst ` set obj)"
  by (auto simp: columns_def)

lemma decoded_all_empty:
  "\<forall>l\<in>set json_file. l = Decoded [] \<Longrightarrow> concat (map (map fst) (decoded json_file)) = []"
  by (induction json_file rule: decoded.induct) auto

lemma load_ok:
  assumes "fs path = Some json_file" "Undecodable \<notin> set json_file"
    and "set required_fields \<subseteq> set (columns (decoded json_file))"
  shows "load fs path = Inr (decoded json_file)"
  using assms by (simp add: load_def)

lemma decoded_mem: "Decoded obj \<in> set json_file \<Longrightarrow> obj \<in> set (decoded json_file)"
  by (induction json_file rule: decoded.induct) auto

lemma iso_bad: "iso_to_datetime (JStr ''not a date'') = Raises"
  by (simp add: iso_to_datetime_def iso_instant_def nat_strings_def)

text \<open>
  Claim C6 (schema gate). When the file is found and every line decodes, and one of the
  five required fields occurs in no record at all, the run ends with the missing-fields
  message (\<open>SchemaError\<close>) and without any data row. The check is on the union of the
  fields of all records.
\<close>

theorem schema_gate:
  assumes "fs (input_file opts) = Some json_file"
    and "Undecodable \<notin> set json_file"
    and "f \<in> set required_fields"
    and "f \<notin> (\<Union>obj\<in>set (decoded json_file). fst ` set obj)"
  shows "engine parse re fs opts = Inl SchemaError
         \<and> output_rows (engine parse re fs opts) = []
         \<and> diagnostic SchemaError \<noteq> None"
proof -
  have "\<not> set required_fields \<subseteq> set (columns (decoded json_file))"
    using assms(3,4) unfolding set_columns by blast
  then have "load fs (input_file opts) = Inl SchemaError"
    using assms(1,2) by (rule load_schema_error[rotated 2])
  then show ?thesis
    by (simp add: engine_def output_rows_def diagnostic_def)
qed

theorem schema_gate_witness:
  "engine iso_to_datetime simple_search
     [''in.json'' \<mapsto>
        [Decoded [(''timestamp'', JStr ''2020-01-01T00:00:00''), (''duration'', JNum 5)],
         Decoded [(''client_name'', JStr ''acme''), (''source_language'', JStr ''en'')]]]
     (setup_defaults ''in.json'') = Inl SchemaError
   \<and> output_rows
        (engine iso_to_datetime simple_search
           [''in.json'' \<mapsto>
              [Decoded [(''timestamp'', JStr ''2020-01-01T00:00:00''), (''duration'', JNum 5)],
               Decoded [(''client_name'', JStr ''acme''), (''source_language'', JStr ''en'')]]]
           (setup_defaults ''in.json'')) = []"
  using schema_gate[where f = "''target_language''" and parse = iso_to_datetime
      and re = simple_search and opts = "setup_defaults ''in.json''"
      and fs = "[''in.json'' \<mapsto>
        [Decoded [(''timestamp'', JStr ''2020-01-01T00:00:00''), (''duration'', JNum 5)],
         Decoded [(''client_name'', JStr ''acme''), (''source_language'', JStr ''en'')]]]"
      and json_file =
        "[Decoded [(''timestamp'', JStr ''2020-01-01T00:00:00''), (''duration'', JNum 5)],
          Decoded [(''client_name'', JStr ''acme''), (''source_language'', JStr ''en'')]]"]
  by (simp add: setup_defaults_def required_fields_def output_rows_def)

text \<open>
  Claim C10 (empty input). A file of zero lines, or of records without any field, gives
  a frame without columns; the required-fields check fails, the run prints the
  missing-fields message and returns no data row.
\<close>

theorem empty_input_schema_error:
  assumes "fs (input_file opts) = Some json_file"
    and "\<forall>l\<in>set json_file. l = Decoded []"
  shows "columns (decoded json_file) = []
         \<and> engine parse re fs opts = Inl SchemaError
         \<and> output_rows (engine parse re fs opts) = []
         \<and> diagnostic SchemaError
             = Some ''Can't find all the relevant fields to work with. Exiting...''"
proof -
  have c: "columns (decoded json_file) = []"
    using assms(2) by (simp add: columns_def decoded_all_empty)
  have u: "Undecodable \<notin> set json_file"
    using assms(2) by auto
  have "load fs (input_file opts) = Inl SchemaError"
    using assms(1) u c by (simp add: load_def required_fields_def)
  then show ?thesis
    using c by (simp add: engine_def output_rows_def diagnostic_def)
qed

theorem empty_input_schema_error_witness:
  "engine iso_to_datetime simple_search [''in.json'' \<mapsto> []] (setup_defaults ''in.json'')
     = Inl SchemaError
   \<and> engine iso_to_datetime simple_search [''in.json'' \<mapsto> [Decoded [], Decoded []]]
       (setup_defaults ''in.json'')
     = Inl SchemaError"
  using empty_input_schema_error[of "[''in.json'' \<mapsto> []]" "setup_defaults ''in.json''" "[]"
      iso_to_datetime simple_search]
    empty_input_schema_error[of "[''in.json'' \<mapsto> [Decoded [], Decoded []]]"
      "setup_defaults ''in.json''" "[Decoded [], Decoded []]" iso_to_datetime simple_search]
  by (simp add: setup_defaults_def)

text \<open>
  A timestamp on which \<^verbatim>\<open>pd.to_datetime\<close> raises, in a file that is found, decodes
  and has the five fields: the exception of line 28 is outside the \<^verbatim>\<open>try\<close> blocks of
  lines 13 to 26, so it ends the run before any aggregation, without a data row and
  without any of the program's own messages.
\<close>

lemma timestamp_raise_uncaught:
  assumes "fs (input_file opts) = Some json_file"
    and "Undecodable \<notin> set json_file"
    and "set required_fields \<subseteq> (\<Union>obj\<in>set (decoded json_file). fst ` set obj)"
    and "Decoded obj \<in> set json_file"
    and "map_of obj ''timestamp'' = Some v" and "v \<noteq> JNull" and "parse v = Raises"
  shows "engine parse re fs opts = Inl (Uncaught ParseError)
         \<and> engine parse re fs opts \<noteq> Inl SchemaError
         \<and> output_rows (engine parse re fs opts) = []
         \<and> diagnostic (Uncaught ParseError) = None"
proof -
  have l: "load fs (input_file opts) = Inr (decoded json_file)"
    using assms(1,2,3) by (intro load_ok) (simp_all add: set_columns)
  have "timestamp_fails parse obj"
    using assms(5,6,7) by (cases v) (simp_all add: timestamp_fails_def)
  then have "list_ex (timestamp_fails parse) (decoded json_file)"
    using decoded_mem[OF assms(4)] by (auto simp: list_ex_iff)
  then show ?thesis
    using l by (simp add: engine_def output_rows_def diagnostic_def)
qed

text \<open>
  Claim C7 (timestamp parse failure). The claim asks that a timestamp that fails to
  parse ends the run by the handled \<open>SchemaError\<close> return with its message, as the
  other malformed inputs of lines 19 to 26 do. The program does not: on the file whose
  one line has all five fields and the timestamp \<^verbatim>\<open>not a date\<close>, the schema check
  passes and the run ends by the exception that line 28 raises outside the
  \<^verbatim>\<open>try\<close> blocks, with no message of the program and no data row.
\<close>

theorem timestamp_parse_failure_not_schema_error:
  "engine iso_to_datetime simple_search
     [''in.json'' \<mapsto> [Decoded (translation ''not a date'' 5)]] (setup_defaults ''in.json'')
     = Inl (Uncaught ParseError)
   \<and> engine iso_to_datetime simple_search
       [''in.json'' \<mapsto> [Decoded (translation ''not a date'' 5)]] (setup_defaults ''in.json'')
     \<noteq> Inl SchemaError
   \<and> load [''in.json'' \<mapsto> [Decoded (translation ''not a date'' 5)]] ''in.json''
     = Inr [translation ''not a date'' 5]
   \<and> diagnostic (Uncaught ParseError) = None
   \<and> diagnostic SchemaError = Some ''Can't find all the relevant fields to work with. Exiting...''"
  by (simp add: engine_def load_def setup_defaults_def required_fields_def translation_def
      columns_def timestamp_fails_def iso_bad diagnostic_def)

section \<open>Filter stage\<close>

lemma match_here_dot_star: "match_here [Many CHR ''.''] s"
  by (induction s) simp_all

lemma simple_search_default: "simple_search ''.*'' s"
  by (cases s) (simp_all add: simple_search_def match_here_dot_star)

lemma next_cells:
  assumes "ts \<noteq> []"
  shows "(shift_back ts)[length ts - 1 := Some (last ts)] = map Some (tl ts @ [last ts])"
proof -
  have "(map Some (tl ts) @ [None])[length (map Some (tl ts)) := Some (last ts)]
          = map Some (tl ts) @ [Some (last ts)]"
    by (rule list_update_length)
  then show ?thesis
    using assms by (simp add: shift_back_def)
qed

lemma zip_by_index:
  "length ys = length xs \<Longrightarrow> zip xs ys = map (\<lambda>i. (xs ! i, ys ! i)) [0..<length xs]"
  by (rule nth_equalityI) simp_all

lemma select_by_index:
  assumes "length ys = length xs"
  shows "map fst (filter (\<lambda>(r, x). Q x) (zip xs ys))
           = map ((!) xs) (filter (\<lambda>i. Q (ys ! i)) [0..<length xs])"
  unfolding zip_by_index[OF assms] filter_map map_map
  by (simp add: comp_def)

lemma next_nth:
  assumes "i < length ts"
  shows "(tl ts @ [last ts]) ! i = (if Suc i < length ts then ts ! Suc i else ts ! i)"
proof (cases "Suc i < length ts")
  case True
  then have "i < length (tl ts)" by simp
  then have "(tl ts @ [last ts]) ! i = tl ts ! i" by (simp add: nth_append del: length_tl)
  also have "\<dots> = ts ! Suc i" using \<open>i < length (tl ts)\<close> by (rule nth_tl)
  finally show ?thesis using True by simp
next
  case False
  with assms have i: "i = length ts - 1" and ne: "ts \<noteq> []" by auto
  then show ?thesis using False by (simp add: nth_append last_conv_nth)
qed

lemma keep_after_index:
  assumes "df \<noteq> []"
  shows "keep_after c df =
     map ((!) df)
       (filter (\<lambda>i. c < (if Suc i < length df then date (df ! Suc i) else date (df ! i)))
          [0..<length df])"
proof -
  let ?ts = "map date df"
  have ne: "?ts \<noteq> []" using assms by simp
  have "keep_after c df = map fst (filter (\<lambda>(r, nx). cell_gt nx c) (zip df (map Some (tl ?ts @ [last ?ts]))))"
    using next_cells[OF ne] by (simp add: keep_after_def Let_def)
  also have "\<dots> = map ((!) df) (filter (\<lambda>i. cell_gt (map Some (tl ?ts @ [last ?ts]) ! i) c) [0..<length df])"
    using assms by (intro select_by_index) simp
  also have "\<dots> = map ((!) df) (filter (\<lambda>i. c < (if Suc i < length df then date (df ! Suc i) else date (df ! i))) [0..<length df])"
  proof (intro arg_cong2[where f = map] filter_cong refl)
    fix i assume "i \<in> set [0..<length df]"
    then have i: "i < length ?ts" by simp
    then have "i < length (tl ?ts @ [last ?ts])" using ne by simp
    then have "map Some (tl ?ts @ [last ?ts]) ! i = Some ((tl ?ts @ [last ?ts]) ! i)"
      by (rule nth_map)
    also have "(tl ?ts @ [last ?ts]) ! i = (if Suc i < length ?ts then ?ts ! Suc i else ?ts ! i)"
      using i by (rule next_nth)
    finally show "cell_gt (map Some (tl ?ts @ [last ?ts]) ! i) c
        = (c < (if Suc i < length df then date (df ! Suc i) else date (df ! i)))"
      using i by (simp add: cell_gt_def)
  qed
  finally show ?thesis .
qed

lemma sorted_last_Max:
  assumes "xs \<noteq> []" "sorted xs"
  shows "last xs = Max (set xs)"
proof (rule sym, rule Max_eqI)
  show "finite (set xs)" by simp
  show "last xs \<in> set xs" using assms(1) by simp
  fix y assume "y \<in> set xs"
  then obtain i where i: "i < length xs" "xs ! i = y" by (auto simp: in_set_conv_nth)
  then have "xs ! i \<le> xs ! (length xs - 1)"
    using assms(2) by (intro sorted_nth_mono) auto
  then show "y \<le> last xs" using i assms(1) by (simp add: last_conv_nth)
qed

lemma keep_after_keeps_last:
  assumes "df \<noteq> []" "c < date (last df)"
  shows "keep_after c df \<noteq> [] \<and> last (keep_after c df) = last df"
proof -
  let ?P = "\<lambda>i. c < (if Suc i < length df then date (df ! Suc i) else date (df ! i))"
  obtain n where n: "length df = Suc n" using assms(1) by (cases df) auto
  have l: "df ! n = last df" using n assms(1) by (simp add: last_conv_nth)
  have "?P n" using n l assms(2) by simp
  then have "filter ?P [0..<length df] = filter ?P [0..<n] @ [n]"
    by (simp add: n)
  then have "keep_after c df = map ((!) df) (filter ?P [0..<n]) @ [last df]"
    using keep_after_index[OF assms(1), of c] l by simp
  then show ?thesis by simp
qed

lemma window_representable:
  "representable (w * minute) = (- 153722867 \<le> w \<and> w \<le> 153722867)"
  by (auto simp: representable_def minute_def)

lemma cutoff_step_checked:
  assumes "df \<noteq> []" "w \<noteq> 0" "representable (w * minute)"
    and "representable (date (last df) - w * minute)"
  shows "cutoff_step (Some w) df = Inr (keep_after (date (last df) - w * minute) df)"
  using assms by (simp add: cutoff_step_def)

text \<open>
  Claim C1 (trailing-window cutoff with carry-in), as amended. The last row of a
  non-empty frame sorted by timestamp is the chronologically last record. For a window
  \<open>w\<close> other than zero that fits a \<^verbatim>\<open>Timedelta\<close> (at most 153722867 minutes either
  way) and a cutoff \<open>last - w minutes\<close> that is an instant of pandas, the cutoff step
  keeps exactly the rows whose next timestamp is after the cutoff, in their order; the
  next timestamp of a row is the timestamp of the row that follows it, and of the final
  row its own. The final row is kept whenever such a window is positive. Without a
  window, and with the window 0, the step is not run and every row is kept; with a
  window beyond 153722867 minutes the run ends by the exception of line 48. For rows at
  minutes \<open>t - 12, t - 9, t - 5, t - 1, t\<close> and a window of 10 every row is kept, the
  one at \<open>t - 12\<close> among them.
\<close>

theorem trailing_window_cutoff:
  "(df \<noteq> [] \<and> sorted (map date df) \<longrightarrow> date (last df) = Max (date ` set df))
   \<and> (df \<noteq> [] \<and> w \<noteq> 0 \<and> representable (w * minute)
        \<and> representable (date (last df) - w * minute) \<longrightarrow>
        cutoff_step (Some w) df =
          Inr (map ((!) df)
                 (filter (\<lambda>i. date (last df) - w * minute
                                < (if Suc i < length df then date (df ! Suc i) else date (df ! i)))
                    [0..<length df]))
        \<and> (0 < w \<longrightarrow>
              (\<exists>kept. cutoff_step (Some w) df = Inr kept \<and> kept \<noteq> [] \<and> last kept = last df)))
   \<and> cutoff_step None df = Inr df
   \<and> cutoff_step (Some 0) df = Inr df
   \<and> (df \<noteq> [] \<and> w \<noteq> 0 \<and> \<not> representable (w * minute) \<longrightarrow>
        cutoff_step (Some w) df = Inl (Uncaught OverflowError))
   \<and> (representable (w * minute) \<longleftrightarrow> - 153722867 \<le> w \<and> w \<le> 153722867)
   \<and> (representable (t - 10 * minute) \<longrightarrow>
        cutoff_step (Some 10) (map (\<lambda>k. r\<lparr>date := t - k * minute\<rparr>) [12, 9, 5, 1, 0])
          = Inr (map (\<lambda>k. r\<lparr>date := t - k * minute\<rparr>) [12, 9, 5, 1, 0]))"
proof (intro conjI impI)
  assume "df \<noteq> [] \<and> sorted (map date df)"
  then have "last (map date df) = Max (set (map date df))"
    by (intro sorted_last_Max) simp_all
  then show "date (last df) = Max (date ` set df)"
    using \<open>df \<noteq> [] \<and> sorted (map date df)\<close> by (simp add: last_map)
next
  assume a: "df \<noteq> [] \<and> w \<noteq> 0 \<and> representable (w * minute)
        \<and> representable (date (last df) - w * minute)"
  then have c: "cutoff_step (Some w) df = Inr (keep_after (date (last df) - w * minute) df)"
    by (intro cutoff_step_checked) simp_all
  show "cutoff_step (Some w) df =
          Inr (map ((!) df)
                 (filter (\<lambda>i. date (last df) - w * minute
                                < (if Suc i < length df then date (df ! Suc i) else date (df ! i)))
                    [0..<length df]))"
    unfolding c using a keep_after_index[of df "date (last df) - w * minute"] by simp
  assume "0 < w"
  then have "date (last df) - w * minute < date (last df)"
    by (simp add: minute_def)
  then have "keep_after (date (last df) - w * minute) df \<noteq> []
      \<and> last (keep_after (date (last df) - w * minute) df) = last df"
    using a by (intro keep_after_keeps_last) simp_all
  then show "\<exists>kept. cutoff_step (Some w) df = Inr kept \<and> kept \<noteq> [] \<and> last kept = last df"
    unfolding c by blast
next
  show "cutoff_step None df = Inr df" "cutoff_step (Some 0) df = Inr df"
    by (simp_all add: cutoff_step_def)
next
  assume "df \<noteq> [] \<and> w \<noteq> 0 \<and> \<not> representable (w * minute)"
  then show "cutoff_step (Some w) df = Inl (Uncaught OverflowError)"
    by (simp add: cutoff_step_def)
next
  show "representable (w * minute) \<longleftrightarrow> - 153722867 \<le> w \<and> w \<le> 153722867"
    by (rule window_representable)
next
  assume "representable (t - 10 * minute)"
  then show "cutoff_step (Some 10) (map (\<lambda>k. r\<lparr>date := t - k * minute\<rparr>) [12, 9, 5, 1, 0])
          = Inr (map (\<lambda>k. r\<lparr>date := t - k * minute\<rparr>) [12, 9, 5, 1, 0])"
    by (simp add: cutoff_step_def window_representable keep_after_def shift_back_def cell_gt_def)
       (simp add: minute_def)
qed

theorem trailing_window_cutoff_witness:
  "[at_minute 0, at_minute 3, at_minute 4, at_minute 9] \<noteq> []
   \<and> sorted (map date [at_minute 0, at_minute 3, at_minute 4, at_minute 9])
   \<and> (5::int) \<noteq> 0 \<and> (0::int) < 5
   \<and> representable (5 * minute)
   \<and> representable (date (last [at_minute 0, at_minute 3, at_minute 4, at_minute 9]) - 5 * minute)
   \<and> cutoff_step (Some 5) [at_minute 0, at_minute 3, at_minute 4, at_minute 9]
       = Inr [at_minute 4, at_minute 9]
   \<and> (\<exists>kept. cutoff_step (Some 5) [at_minute 0, at_minute 3, at_minute 4, at_minute 9] = Inr kept
         \<and> kept \<noteq> [] \<and> last kept = at_minute 9)"
proof -
  let ?df = "[at_minute 0, at_minute 3, at_minute 4, at_minute 9]"
  have s: "sorted (map date ?df)"
    by (simp add: at_minute_def minute_def)
  have r: "representable (5 * minute)" "representable (date (last ?df) - 5 * minute)"
    by (simp_all add: representable_def at_minute_def minute_def)
  have e: "cutoff_step (Some 5) ?df = Inr [at_minute 4, at_minute 9]"
    using r by (simp add: cutoff_step_def keep_after_def shift_back_def cell_gt_def)
      (simp add: at_minute_def minute_def)
  have h: "?df \<noteq> [] \<and> (5::int) \<noteq> 0 \<and> representable (5 * minute)
        \<and> representable (date (last ?df) - 5 * minute)"
    using r by simp
  have "\<exists>kept. cutoff_step (Some 5) ?df = Inr kept \<and> kept \<noteq> [] \<and> last kept = last ?df"
    using trailing_window_cutoff[of ?df 5, THEN conjunct2, THEN conjunct1, THEN mp, OF h,
        THEN conjunct2]
    by simp
  then have "\<exists>kept. cutoff_step (Some 5) ?df = Inr kept \<and> kept \<noteq> [] \<and> last kept = at_minute 9"
    by simp
  then show ?thesis
    using s r e by (simp only: simp_thms) simp
qed

text \<open>
  The claim as stated, for every requested window, fails outside the positive windows
  that fit: with a negative window the cutoff is after the last timestamp and the final
  row is dropped with all the others; with the window 0 the step is not run, so every
  row is kept where the rule of the claim keeps none; with a window of 153722868
  minutes the run ends by an exception.
\<close>

theorem cutoff_outside_positive_windows:
  "cutoff_step (Some (- 1)) [at_minute 0, at_minute 3] = Inr []
   \<and> cutoff_step (Some 0) [at_minute 0, at_minute 3] = Inr [at_minute 0, at_minute 3]
   \<and> \<not> date (last [at_minute 0, at_minute 3]) - 0 * minute < date (last [at_minute 0, at_minute 3])
   \<and> cutoff_step (Some 153722868) [at_minute 0, at_minute 3] = Inl (Uncaught OverflowError)"
  by (simp add: cutoff_step_def representable_def keep_after_def shift_back_def cell_gt_def
      at_minute_def minute_def)

text \<open>
  Claim C9 (filter conjunction). The pattern filter keeps, in their order, exactly the
  rows whose source language, target language and client name each contain a match of
  the respective pattern. With the three default patterns every row is kept, given that
  the default pattern \<^verbatim>\<open>.*\<close> is found in every string, as it is by \<^verbatim>\<open>re.search\<close>.
\<close>

theorem filter_conjunction:
  "pattern_filter re opts df =
     filter (\<lambda>r. re (source opts) (source_language r) \<and> re (target opts) (target_language r)
                 \<and> re (client opts) (client_name r)) df
   \<and> ((\<forall>s. re ''.*'' s) \<longrightarrow> pattern_filter re (setup_defaults path) df = df)"
proof -
  have eq: "pattern_filter re o' xs =
     filter (\<lambda>r. re (source o') (source_language r) \<and> re (target o') (target_language r)
                 \<and> re (client o') (client_name r)) xs" for o' xs
    by (induction xs) (simp_all add: pattern_filter_def str_contains_def)
  show ?thesis
    by (simp add: eq) (simp add: setup_defaults_def)
qed

theorem filter_conjunction_witness:
  "(\<forall>s. simple_search ''.*'' s)
   \<and> pattern_filter simple_search (setup_defaults ''in.json'')
        [sample_event ''acme'' ''en'' ''fr'', sample_event [] ''x y'' [CHR 0x0A]]
      = [sample_event ''acme'' ''en'' ''fr'', sample_event [] ''x y'' [CHR 0x0A]]
   \<and> pattern_filter simple_search ((setup_defaults ''in.json'')\<lparr>source := ''en''\<rparr>)
        [sample_event ''acme'' ''en'' ''fr'', sample_event ''acme'' ''de'' ''fr'']
      = [sample_event ''acme'' ''en'' ''fr'']"
  using filter_conjunction[of simple_search "setup_defaults ''in.json''"
      "[sample_event ''acme'' ''en'' ''fr'', sample_event [] ''x y'' [CHR 0x0A]]" "''in.json''"]
    filter_conjunction[of simple_search "(setup_defaults ''in.json'')\<lparr>source := ''en''\<rparr>"
      "[sample_event ''acme'' ''en'' ''fr'', sample_event ''acme'' ''de'' ''fr'']" "''in.json''"]
  by (simp add: simple_search_default)
     (simp add: setup_defaults_def sample_event_def simple_search_def atom_matches_def)

section \<open>Resampling\<close>

lemma minute_pos: "0 < minute"
  by (simp add: minute_def)

lemma range_edges_left:
  "range_edges ClosedLeft lo hi = (lo div minute * minute, (hi div minute + 1) * minute)"
proof -
  have a: "x - x mod minute = x div minute * minute" for x :: int
    by (simp add: minus_mod_eq_div_mult)
  have b: "x + (minute - x mod minute) = (x div minute + 1) * minute" for x :: int
    using a[of x] by (simp add: algebra_simps)
  have c: "\<not> 0 < x mod minute \<Longrightarrow> x mod minute = 0" for x :: int
    using pos_mod_sign[OF minute_pos, of x] by simp
  have d: "x mod minute = 0 \<Longrightarrow> x = x div minute * minute" for x :: int
    by auto
  show ?thesis
    using a[of lo] b[of hi] c[of lo] c[of hi] d[of lo] d[of hi]
    by (auto simp: range_edges_def Let_def algebra_simps)
qed

lemma range_edges_right:
  assumes "lo mod minute = 0" "hi mod minute = 0"
  shows "range_edges ClosedRight lo hi = (lo - minute, hi)"
  using assms by (simp add: range_edges_def)

lemma tl_date_range:
  "tl (date_range a b) = map (\<lambda>k. a + (int k + 1) * minute) [0..<nat ((b - a) div minute)]"
proof -
  let ?n = "nat ((b - a) div minute)"
  have n: "nat ((b - a) div minute + 1) - 1 = ?n" by simp
  show ?thesis
    by (rule nth_equalityI) (simp_all add: date_range_def n nth_tl algebra_simps)
qed

lemma zip_date_range:
  "zip (date_range a b) (tl (date_range a b))
     = map (\<lambda>k. (a + int k * minute, a + (int k + 1) * minute)) [0..<nat ((b - a) div minute)]"
proof -
  have l: "length (date_range a b) = nat ((b - a) div minute + 1)"
    by (simp add: date_range_def)
  show ?thesis
    unfolding tl_date_range
    by (rule nth_equalityI) (auto simp: l date_range_def)
qed

lemma interval_div:
  "(q * minute \<le> t \<and> t < (q + 1) * minute) = (t div minute = q)"
proof
  assume "q * minute \<le> t \<and> t < (q + 1) * minute"
  then have "t = minute * q + (t - q * minute)" "0 \<le> t - q * minute" "t - q * minute < minute"
    by (simp_all add: algebra_simps)
  then show "t div minute = q"
    by (rule int_div_pos_eq)
next
  assume q: "t div minute = q"
  have "t = t div minute * minute + t mod minute"
    by simp
  then have "t = q * minute + t mod minute"
    using q by simp
  moreover have "0 \<le> t mod minute" "t mod minute < minute"
    using minute_pos by simp_all
  ultimately show "q * minute \<le> t \<and> t < (q + 1) * minute"
    by (simp add: algebra_simps)
qed

lemma resample_label_right_mean_eq:
  assumes "df \<noteq> []"
  shows "resample_label_right_mean df =
     map (\<lambda>k. ((Min (fst ` set df) div minute + int k + 1) * minute,
               mean_cell (map snd (filter (\<lambda>(t, d). t div minute = Min (fst ` set df) div minute + int k) df))))
         [0..<nat (Max (fst ` set df) div minute - Min (fst ` set df) div minute + 1)]"
proof -
  let ?lo = "Min (fst ` set df)" and ?hi = "Max (fst ` set df)"
  let ?a = "?lo div minute * minute" and ?b = "(?hi div minute + 1) * minute"
  have "?b - ?a = (?hi div minute - ?lo div minute + 1) * minute"
    by (simp add: algebra_simps)
  then have n: "(?b - ?a) div minute = ?hi div minute - ?lo div minute + 1"
    using minute_pos by simp
  have i: "(?a + int k * minute \<le> t \<and> t < ?a + (int k + 1) * minute) = (t div minute = ?lo div minute + int k)" for k t
    using interval_div[of "?lo div minute + int k" t] by (simp add: algebra_simps)
  have j: "?a + (int k + 1) * minute = (?lo div minute + int k + 1) * minute" for k
    by (simp add: algebra_simps)
  have "resample_label_right_mean df =
      map (\<lambda>(lo, hi). (hi, mean_cell (map snd (filter (\<lambda>(t, d). lo \<le> t \<and> t < hi) df))))
        (map (\<lambda>k. (?a + int k * minute, ?a + (int k + 1) * minute))
           [0..<nat (?hi div minute - ?lo div minute + 1)])"
    using assms
    by (simp only: resample_label_right_mean_def Let_def range_edges_left zip_date_range n
        if_False fst_conv snd_conv set_map)
  also have "\<dots> = map (\<lambda>k. ((?lo div minute + int k + 1) * minute,
               mean_cell (map snd (filter (\<lambda>(t, d). t div minute = ?lo div minute + int k) df))))
         [0..<nat (?hi div minute - ?lo div minute + 1)]"
    by (simp only: map_map o_def prod.case j i[unfolded j])
  finally show ?thesis .
qed

lemma dropna_set: "((L, v) \<in> set (dropna xs)) = ((L, Some v) \<in> set xs)"
  by (induction xs rule: dropna.induct) auto

lemma dropna_labels_sorted:
  "sorted_wrt (<) (map fst xs) \<Longrightarrow> sorted_wrt (<) (map fst (dropna xs))"
proof (induction xs rule: dropna.induct)
  case (3 t v df)
  have "fst ` set (dropna df) \<subseteq> fst ` set df"
    by (force simp: dropna_set)
  with 3 show ?case by fastforce
qed simp_all

lemma mean_cell_Some:
  "(mean_cell ds = Some v) = (ds \<noteq> [] \<and> v = sum_list ds / of_nat (length ds))"
  by (auto simp: mean_cell_def)

lemma bucket_mem:
  "((L, v) \<in> set (dropna (resample_label_right_mean df)))
     = (\<exists>q. L = (q + 1) * minute
            \<and> mean_cell (map snd (filter (\<lambda>(t, d). t div minute = q) df)) = Some v)"
proof (cases "df = []")
  case True
  then show ?thesis
    by (simp add: resample_label_right_mean_def mean_cell_def)
next
  case False
  let ?lo = "Min (fst ` set df)" and ?hi = "Max (fst ` set df)"
  let ?mem = "\<lambda>q. map snd (filter (\<lambda>(t, d). t div minute = q) df)"
  have range: "?lo div minute \<le> q \<and> q \<le> ?hi div minute" if "mean_cell (?mem q) = Some v" for q
  proof -
    from that have "?mem q \<noteq> []" by (simp add: mean_cell_Some)
    then obtain t d where td: "(t, d) \<in> set df" "t div minute = q"
      by (auto simp: filter_empty_conv)
    then have "t \<in> fst ` set df"
      by force
    then have "?lo \<le> t" "t \<le> ?hi"
      by simp_all
    then show ?thesis
      using td(2) zdiv_mono1[of ?lo t minute] zdiv_mono1[of t ?hi minute] minute_pos by simp
  qed
  have "((L, v) \<in> set (dropna (resample_label_right_mean df)))
      = (\<exists>k < nat (?hi div minute - ?lo div minute + 1).
            L = (?lo div minute + int k + 1) * minute \<and> mean_cell (?mem (?lo div minute + int k)) = Some v)"
    unfolding dropna_set resample_label_right_mean_eq[OF False]
    by (auto simp: image_iff)
  also have "\<dots> = (\<exists>q. L = (q + 1) * minute \<and> mean_cell (?mem q) = Some v)"
  proof
    assume "\<exists>k < nat (?hi div minute - ?lo div minute + 1).
            L = (?lo div minute + int k + 1) * minute \<and> mean_cell (?mem (?lo div minute + int k)) = Some v"
    then show "\<exists>q. L = (q + 1) * minute \<and> mean_cell (?mem q) = Some v"
      by blast
  next
    assume "\<exists>q. L = (q + 1) * minute \<and> mean_cell (?mem q) = Some v"
    then obtain q where q: "L = (q + 1) * minute" "mean_cell (?mem q) = Some v" by blast
    from range[OF q(2)] have "nat (q - ?lo div minute) < nat (?hi div minute - ?lo div minute + 1)"
      "?lo div minute + int (nat (q - ?lo div minute)) = q"
      by simp_all
    with q show "\<exists>k < nat (?hi div minute - ?lo div minute + 1).
            L = (?lo div minute + int k + 1) * minute \<and> mean_cell (?mem (?lo div minute + int k)) = Some v"
      by (intro exI[of _ "nat (q - ?lo div minute)"]) simp
  qed
  finally show ?thesis .
qed

lemma bucket_labels_sorted:
  "sorted_wrt (<) (map fst (dropna (resample_label_right_mean df)))"
proof (cases "df = []")
  case True
  then show ?thesis by (simp add: resample_label_right_mean_def)
next
  case False
  have "sorted_wrt (<) (map fst (resample_label_right_mean df))"
    unfolding resample_label_right_mean_eq[OF False]
    using minute_pos by (simp add: sorted_wrt_iff_nth_less o_def)
  then show ?thesis by (rule dropna_labels_sorted)
qed






lemma tl_date_range_shift: "tl (date_range (lo - minute) hi) = date_range lo hi"
proof -
  have "hi - (lo - minute) = (hi - lo) + minute"
    by simp
  then have "(hi - (lo - minute)) div minute = (hi - lo) div minute + 1"
    using minute_pos by (simp only: div_add_self2)
  then show ?thesis
    unfolding tl_date_range by (simp add: date_range_def algebra_simps)
qed

lemma resample_closed_right_pad_eq:
  assumes "bs \<noteq> []" and "\<forall>l \<in> fst ` set bs. l mod minute = 0"
  shows "resample_closed_right_pad bs
           = map (\<lambda>t. (t, pad_value bs t)) (date_range (Min (fst ` set bs)) (Max (fst ` set bs)))"
proof -
  have "Min (fst ` set bs) \<in> fst ` set bs" "Max (fst ` set bs) \<in> fst ` set bs"
    using assms(1) by simp_all
  then have "Min (fst ` set bs) mod minute = 0" "Max (fst ` set bs) mod minute = 0"
    using assms(2) by blast+
  then have "range_edges ClosedRight (Min (fst ` set bs)) (Max (fst ` set bs))
               = (Min (fst ` set bs) - minute, Max (fst ` set bs))"
    by (rule range_edges_right)
  then show ?thesis
    using assms(1) by (simp add: resample_closed_right_pad_def Let_def tl_date_range_shift)
qed

lemma strict_sorted_le_last:
  fixes xs :: "(int \<times> 'b) list"
  assumes "sorted_wrt (<) (map fst xs)" "x \<in> set xs"
  shows "fst x \<le> fst (last xs)"
proof -
  have ne: "map fst xs \<noteq> []" using assms(2) by auto
  have "sorted (map fst xs)"
    using assms(1) by (rule sorted_wrt_mono_rel[rotated]) simp
  then have "last (map fst xs) = Max (set (map fst xs))"
    using ne by (intro sorted_last_Max)
  moreover have "fst x \<le> Max (set (map fst xs))"
    using assms(2) by (intro Max_ge) auto
  ultimately show ?thesis
    using ne by (simp add: last_map)
qed

lemma pad_value_nearest:
  assumes "sorted_wrt (<) (map fst bs)" and "(l0, v0) \<in> set bs" and "l0 \<le> t"
  shows "\<exists>(l, v) \<in> set bs. l \<le> t \<and> pad_value bs t = Some v
           \<and> (\<forall>(l', v') \<in> set bs. l' \<le> t \<longrightarrow> l' \<le> l)"
proof -
  let ?fs = "filter (\<lambda>(l, v). l \<le> t) bs"
  have ne: "?fs \<noteq> []"
    using assms(2,3) by (auto simp: filter_empty_conv)
  then have p: "pad_value bs t = Some (snd (last ?fs))"
    by (cases ?fs) (simp_all add: pad_value_def)
  have in_fs: "last ?fs \<in> set ?fs"
    using ne by (rule last_in_set)
  have "map fst ?fs = filter (\<lambda>l. l \<le> t) (map fst bs)"
    by (induction bs) auto
  then have s: "sorted_wrt (<) (map fst ?fs)"
    using assms(1) by (simp add: sorted_wrt_filter)
  have mx: "l' \<le> fst (last ?fs)" if "(l', v') \<in> set bs" "l' \<le> t" for l' v'
    using strict_sorted_le_last[OF s, of "(l', v')"] that by simp
  obtain l v where lv: "last ?fs = (l, v)" by (cases "last ?fs")
  have "(l, v) \<in> set bs" "l \<le> t"
    using in_fs lv by auto
  moreover have "pad_value bs t = Some v"
    using p lv by simp
  moreover have "\<forall>(l', v') \<in> set bs. l' \<le> t \<longrightarrow> l' \<le> l"
    using mx lv by auto
  ultimately show ?thesis
    by blast
qed

lemma date_range_mem:
  "(t \<in> set (date_range lo hi)) = (lo \<le> t \<and> t \<le> hi \<and> (t - lo) mod minute = 0)"
proof
  assume "t \<in> set (date_range lo hi)"
  then obtain k where k: "k < nat ((hi - lo) div minute + 1)" "t = lo + int k * minute"
    by (auto simp: date_range_def)
  then have "int k \<le> (hi - lo) div minute" by simp
  then have "int k * minute \<le> (hi - lo) div minute * minute"
    using minute_pos by (simp add: mult_right_mono)
  also have "\<dots> \<le> hi - lo"
    using minute_pos by (simp add: div_mult_self1_is_m [symmetric] minus_mod_eq_div_mult [symmetric])
  finally have "int k * minute \<le> hi - lo" .
  moreover have "0 \<le> int k * minute"
    using minute_pos by simp
  ultimately show "lo \<le> t \<and> t \<le> hi \<and> (t - lo) mod minute = 0"
    using k(2) by simp
next
  assume a: "lo \<le> t \<and> t \<le> hi \<and> (t - lo) mod minute = 0"
  let ?k = "nat ((t - lo) div minute)"
  have d: "0 \<le> (t - lo) div minute"
    using a minute_pos by (simp add: pos_imp_zdiv_nonneg_iff)
  have "(t - lo) div minute \<le> (hi - lo) div minute"
    using a minute_pos by (intro zdiv_mono1) simp_all
  then have "?k < nat ((hi - lo) div minute + 1)"
    using d by simp
  moreover have "t = lo + int ?k * minute"
    using a d by auto
  ultimately have "t \<in> (\<lambda>k. lo + int k * minute) ` {0..<nat ((hi - lo) div minute + 1)}"
    by (intro image_eqI[of _ _ ?k]) simp_all
  then show "t \<in> set (date_range lo hi)"
    by (simp add: date_range_def)
qed

lemma bucket_means_aligned: "(L, v) \<in> set (bucket_means df) \<Longrightarrow> L mod minute = 0"
  unfolding bucket_means_def bucket_mem by auto

lemma bucket_means_nonempty: "df \<noteq> [] \<Longrightarrow> bucket_means df \<noteq> []"
proof -
  assume "df \<noteq> []"
  then obtain t d rest where df: "df = (t, d) # rest" by (cases df) auto
  let ?ds = "map snd (filter (\<lambda>(t', d'). t' div minute = t div minute) df)"
  have "?ds \<noteq> []" by (simp add: df)
  then have "((t div minute + 1) * minute, sum_list ?ds / of_nat (length ?ds)) \<in> set (bucket_means df)"
    unfolding bucket_means_def bucket_mem by (intro exI[of _ "t div minute"]) (simp add: mean_cell_def)
  then show ?thesis by auto
qed

lemma date_range_ends:
  assumes "lo \<le> hi" "(hi - lo) mod minute = 0"
  shows "date_range lo hi \<noteq> [] \<and> hd (date_range lo hi) = lo \<and> last (date_range lo hi) = hi"
proof -
  let ?n = "nat ((hi - lo) div minute)"
  have d: "0 \<le> (hi - lo) div minute"
    using assms(1) minute_pos by (simp add: pos_imp_zdiv_nonneg_iff)
  then have n: "nat ((hi - lo) div minute + 1) = Suc ?n" by simp
  have "int ?n * minute = hi - lo"
    using d assms(2) by auto
  then show ?thesis
    unfolding date_range_def n by (simp add: hd_map last_map del: upt_Suc)
qed

lemma pad_rows:
  assumes "df \<noteq> []"
  shows "resample_closed_right_pad (bucket_means df)
           = map (\<lambda>t. (t, pad_value (bucket_means df) t))
               (date_range (Min (fst ` set (bucket_means df))) (Max (fst ` set (bucket_means df))))"
  using bucket_means_nonempty[OF assms] bucket_means_aligned[of _ _ df]
  by (intro resample_closed_right_pad_eq) auto

lemma bucket_means_sorted: "sorted_wrt (<) (map fst (bucket_means df))"
  unfolding bucket_means_def by (rule bucket_labels_sorted)

lemma gap_fill_rows:
  assumes "df \<noteq> []"
  defines "bs \<equiv> bucket_means df"
  defines "lo \<equiv> Min (fst ` set (bucket_means df))" and "hi \<equiv> Max (fst ` set (bucket_means df))"
  shows "resample_closed_right_pad bs = map (\<lambda>t. (t, pad_value bs t)) (date_range lo hi)"
    and "lo \<in> fst ` set bs" and "hi \<in> fst ` set bs"
    and "lo \<le> hi" and "(hi - lo) mod minute = 0"
    and "\<And>L v. (L, v) \<in> set bs \<Longrightarrow> L \<in> set (date_range lo hi)"
proof -
  have ne: "bs \<noteq> []" unfolding bs_def using assms(1) by (rule bucket_means_nonempty)
  show "resample_closed_right_pad bs = map (\<lambda>t. (t, pad_value bs t)) (date_range lo hi)"
    unfolding bs_def lo_def hi_def using assms(1) by (rule pad_rows)
  show lo: "lo \<in> fst ` set bs" and hi: "hi \<in> fst ` set bs"
    unfolding lo_def hi_def bs_def[symmetric] using ne by simp_all
  show le: "lo \<le> hi"
    unfolding lo_def hi_def bs_def[symmetric] using ne by (simp add: Min_le_iff)
  have al: "L mod minute = 0" if "L \<in> fst ` set bs" for L
    using that bucket_means_aligned[of L _ df] unfolding bs_def by auto
  show "(hi - lo) mod minute = 0"
    using al[OF lo] al[OF hi] by (simp add: mod_diff_eq[symmetric])
  fix L v assume m: "(L, v) \<in> set bs"
  then have Li: "L \<in> fst ` set bs" by force
  then have "lo \<le> L" "L \<le> hi"
    unfolding lo_def hi_def bs_def[symmetric] by simp_all
  moreover have "(L - lo) mod minute = 0"
    using al[OF lo] al[OF Li] by (simp add: mod_diff_eq[symmetric])
  ultimately show "L \<in> set (date_range lo hi)"
    by (simp add: date_range_mem)
qed

text \<open>
  Claim C4 (gap-fill). After bucketing, line 65 gives one row per minute from the
  earliest to the latest bucket present, each one minute after the row before it; a
  bucket that is present keeps its value, and every row carries the value of the
  nearest present bucket that is not after it. Records at minute 0 (duration 10) and
  minute 3 (duration 20) give four rows with the durations 10, 10, 10, 20.
\<close>

theorem gap_fill:
  "(df \<noteq> [] \<longrightarrow>
      map fst (resample_closed_right_pad (bucket_means df))
        = date_range (Min (fst ` set (bucket_means df))) (Max (fst ` set (bucket_means df)))
      \<and> hd (map fst (resample_closed_right_pad (bucket_means df))) = Min (fst ` set (bucket_means df))
      \<and> last (map fst (resample_closed_right_pad (bucket_means df))) = Max (fst ` set (bucket_means df))
      \<and> (\<forall>i. Suc i < length (resample_closed_right_pad (bucket_means df)) \<longrightarrow>
            fst (resample_closed_right_pad (bucket_means df) ! Suc i)
              = fst (resample_closed_right_pad (bucket_means df) ! i) + minute)
      \<and> (\<forall>(L, v) \<in> set (bucket_means df).
            (L, Some v) \<in> set (resample_closed_right_pad (bucket_means df)))
      \<and> (\<forall>(L, c) \<in> set (resample_closed_right_pad (bucket_means df)).
            \<exists>(l, v) \<in> set (bucket_means df).
              l \<le> L \<and> c = Some v \<and> (\<forall>(l', v') \<in> set (bucket_means df). l' \<le> L \<longrightarrow> l' \<le> l)))
   \<and> map snd (resample_closed_right_pad (bucket_means [(0, 10), (3 * minute, 20)]))
       = [Some 10, Some 10, Some 10, Some 20]"
proof (intro conjI impI)
  show "map snd (resample_closed_right_pad (bucket_means [(0, 10), (3 * minute, 20)]))
       = [Some 10, Some 10, Some 10, Some 20]"
    by code_simp
next
  assume df: "df \<noteq> []"
  define bs where "bs = bucket_means df"
  define lo where "lo = Min (fst ` set (bucket_means df))"
  define hi where "hi = Max (fst ` set (bucket_means df))"
  note r = gap_fill_rows[OF df, folded bs_def lo_def hi_def]
  have sorted: "sorted_wrt (<) (map fst bs)"
    unfolding bs_def by (rule bucket_means_sorted)
  have labels: "map fst (resample_closed_right_pad bs) = date_range lo hi"
    unfolding r(1) by (simp add: o_def)
  have ends: "date_range lo hi \<noteq> [] \<and> hd (date_range lo hi) = lo \<and> last (date_range lo hi) = hi"
    using r(4,5) by (rule date_range_ends)
  have nearest: "\<exists>(l, v) \<in> set bs. l \<le> L \<and> pad_value bs L = Some v
           \<and> (\<forall>(l', v') \<in> set bs. l' \<le> L \<longrightarrow> l' \<le> l)" if "L \<in> set (date_range lo hi)" for L
  proof -
    from r(2) obtain v0 where "(lo, v0) \<in> set bs" by auto
    moreover have "lo \<le> L" using that by (simp add: date_range_mem)
    ultimately show ?thesis
      using sorted by (intro pad_value_nearest)
  qed
  show "map fst (resample_closed_right_pad (bucket_means df))
        = date_range (Min (fst ` set (bucket_means df))) (Max (fst ` set (bucket_means df)))"
    using labels unfolding bs_def lo_def hi_def .
  show "hd (map fst (resample_closed_right_pad (bucket_means df))) = Min (fst ` set (bucket_means df))"
    using labels ends unfolding bs_def lo_def hi_def by simp
  show "last (map fst (resample_closed_right_pad (bucket_means df))) = Max (fst ` set (bucket_means df))"
    using labels ends unfolding bs_def lo_def hi_def by simp
  show "\<forall>i. Suc i < length (resample_closed_right_pad (bucket_means df)) \<longrightarrow>
            fst (resample_closed_right_pad (bucket_means df) ! Suc i)
              = fst (resample_closed_right_pad (bucket_means df) ! i) + minute"
    unfolding bs_def[symmetric] r(1) by (simp add: date_range_def algebra_simps)
  show "\<forall>(L, v) \<in> set (bucket_means df).
            (L, Some v) \<in> set (resample_closed_right_pad (bucket_means df))"
  proof (intro ballI, unfold bs_def[symmetric], clarify)
    fix L v assume m: "(L, v) \<in> set bs"
    have L: "L \<in> set (date_range lo hi)" using m by (rule r(6))
    from nearest[OF L] obtain l v' where l: "(l, v') \<in> set bs" "l \<le> L" "pad_value bs L = Some v'"
        "\<forall>(l', v'') \<in> set bs. l' \<le> L \<longrightarrow> l' \<le> l"
      by blast
    from l(4) m have "L \<le> l" by auto
    with l(2) have "l = L" by simp
    moreover have "distinct (map fst bs)"
      using sorted by (simp add: strict_sorted_iff)
    ultimately have "v' = v"
      using l(1) m by (auto dest: eq_key_imp_eq_value)
    then show "(L, Some v) \<in> set (resample_closed_right_pad bs)"
      unfolding r(1) using L l(3) by auto
  qed
  show "\<forall>(L, c) \<in> set (resample_closed_right_pad (bucket_means df)).
            \<exists>(l, v) \<in> set (bucket_means df).
              l \<le> L \<and> c = Some v \<and> (\<forall>(l', v') \<in> set (bucket_means df). l' \<le> L \<longrightarrow> l' \<le> l)"
  proof (intro ballI, unfold bs_def[symmetric], clarify)
    fix L c assume "(L, c) \<in> set (resample_closed_right_pad bs)"
    then have L: "L \<in> set (date_range lo hi)" and c: "c = pad_value bs L"
      unfolding r(1) by auto
    from nearest[OF L] show "\<exists>(l, v) \<in> set bs.
              l \<le> L \<and> c = Some v \<and> (\<forall>(l', v') \<in> set bs. l' \<le> L \<longrightarrow> l' \<le> l)"
      unfolding c .
  qed
qed

theorem gap_fill_witness:
  "[(7, 10), (3 * minute, 20 :: rat)] \<noteq> []
   \<and> bucket_means [(7, 10), (3 * minute, 20)] = [(minute, 10), (4 * minute, 20)]
   \<and> map fst (resample_closed_right_pad (bucket_means [(7, 10), (3 * minute, 20)]))
       = date_range minute (4 * minute)
   \<and> resample_closed_right_pad (bucket_means [(7, 10), (3 * minute, 20)])
       = [(minute, Some 10), (2 * minute, Some 10), (3 * minute, Some 10), (4 * minute, Some 20)]"
proof -
  have b: "bucket_means [(7, 10), (3 * minute, 20)] = [(minute, 10), (4 * minute, 20)]"
    by code_simp
  have g: "resample_closed_right_pad (bucket_means [(7, 10), (3 * minute, 20)])
       = [(minute, Some 10), (2 * minute, Some 10), (3 * minute, Some 10), (4 * minute, Some 20)]"
    by code_simp
  have "map fst (resample_closed_right_pad (bucket_means [(7, 10), (3 * minute, 20)]))
       = date_range (Min (fst ` set (bucket_means [(7, 10), (3 * minute, 20)])))
           (Max (fst ` set (bucket_means [(7, 10), (3 * minute, 20)])))"
    using gap_fill[of "[(7, 10), (3 * minute, 20)]", THEN conjunct1] by blast
  then have "map fst (resample_closed_right_pad (bucket_means [(7, 10), (3 * minute, 20)]))
       = date_range minute (4 * minute)"
    unfolding b by (simp add: minute_def)
  then show ?thesis
    using b g by simp
qed

section \<open>Moving average and output projection\<close>

lemma observed_map_Some: "observed (map Some xs) = xs"
  by (induction xs) simp_all

lemma window_bounds_two:
  "i < n \<Longrightarrow> window_bounds 2 True n i = (i - 1, Suc i)"
  by (auto simp: window_bounds_def Let_def min_def max_def)

lemma take_two_drop:
  assumes "Suc j < length xs"
  shows "take 2 (drop j xs) = [xs ! j, xs ! Suc j]"
proof -
  have "drop j xs = xs ! j # xs ! Suc j # drop (Suc (Suc j)) xs"
    using assms by (simp add: Cons_nth_drop_Suc)
  then show ?thesis
    by (simp add: numeral_2_eq_2)
qed

lemma rolling_mean_nth:
  assumes "i < length xs"
  shows "rolling_mean 2 1 True xs ! i =
           (let obs = observed (take (Suc i - (i - 1)) (drop (i - 1) xs))
            in if 1 \<le> length obs then mean_cell obs else None)"
  using assms by (simp add: rolling_mean_def window_bounds_two Let_def)

text \<open>
  Claim C5 (moving average). On a series without gaps the rolling mean of line 68 has
  one value per row; the first is the first duration itself and every later one is the
  mean of the duration of the row and of the row before it. The series
  \<open>[10, 10, 10, 20]\<close> gives \<open>[10, 10, 10, 15]\<close>.
\<close>

theorem moving_average:
  "length (rolling_mean 2 1 True (map Some ds)) = length ds
   \<and> (ds \<noteq> [] \<longrightarrow> rolling_mean 2 1 True (map Some ds) ! 0 = Some (ds ! 0))
   \<and> (\<forall>i. 1 \<le> i \<and> i < length ds \<longrightarrow>
         rolling_mean 2 1 True (map Some ds) ! i = Some ((ds ! (i - 1) + ds ! i) / 2))
   \<and> rolling_mean 2 1 True [Some 10, Some 10, Some 10, Some 20]
        = [Some 10, Some 10, Some 10, Some 15]"
proof (intro conjI allI impI)
  show "length (rolling_mean 2 1 True (map Some ds)) = length ds"
    by (simp add: rolling_mean_def)
next
  assume "ds \<noteq> []"
  then obtain d rest where "ds = d # rest" by (cases ds) auto
  then show "rolling_mean 2 1 True (map Some ds) ! 0 = Some (ds ! 0)"
    using rolling_mean_nth[of 0 "map Some ds"] by (simp add: mean_cell_def)
next
  fix i assume i: "1 \<le> i \<and> i < length ds"
  then have s: "Suc (i - 1) = i" by simp
  have "take (Suc i - (i - 1)) (drop (i - 1) ds) = [ds ! (i - 1), ds ! i]"
    using i take_two_drop[of "i - 1" ds] s by (simp add: Suc_diff_le numeral_2_eq_2)
  moreover have "take a (drop b (map Some ds)) = map Some (take a (drop b ds))" for a b
    by (simp add: take_map drop_map)
  ultimately have "observed (take (Suc i - (i - 1)) (drop (i - 1) (map Some ds))) = [ds ! (i - 1), ds ! i]"
    by (simp only: observed_map_Some)
  then show "rolling_mean 2 1 True (map Some ds) ! i = Some ((ds ! (i - 1) + ds ! i) / 2)"
    using i rolling_mean_nth[of i "map Some ds"] by (simp add: mean_cell_def)
next
  show "rolling_mean 2 1 True [Some 10, Some 10, Some 10, Some 20]
        = [Some 10, Some 10, Some 10, Some 15]"
    by code_simp
qed

theorem moving_average_witness:
  "rolling_mean 2 1 True (map Some [4, 8, 6]) ! 0 = Some 4
   \<and> rolling_mean 2 1 True (map Some [4, 8, 6]) ! 2 = Some 7"
  using moving_average[of "[4, 8, 6]"]
  by (simp add: numeral_2_eq_2)

text \<open>
  Claim C8 (output projection trim), as amended. With a positive window \<open>w\<close> the output
  is the last \<open>w\<close> rows of the series in their order (all rows when there are fewer);
  without a window the whole series is output; a series of 20 rows and a window of 5
  give its last 5 rows.
\<close>

theorem output_projection_trim:
  "(0 < w \<longrightarrow> output_projection (Some w) df = drop (length df - nat w) df
        \<and> length (output_projection (Some w) df) = min (nat w) (length df)
        \<and> (\<exists>earlier. df = earlier @ output_projection (Some w) df))
   \<and> output_projection None df = df
   \<and> (length df = 20 \<longrightarrow> output_projection (Some 5) df = drop 15 df
        \<and> length (output_projection (Some 5) df) = 5)
   \<and> pipeline re opts rows
       = output_projection (window opts) (moving_average_series re opts rows)"
proof -
  have "\<exists>earlier. df = earlier @ drop n df" for n
    by (rule exI[of _ "take n df"]) simp
  then show ?thesis
    by (auto simp: output_projection_def tail_def pipeline_def)
qed

theorem output_projection_trim_witness:
  "output_projection (Some 2) [7, 8, 9 :: int] = [8, 9]
   \<and> output_projection (Some 5)
        [1, 2, 3, 4, 5, 6, 7, 8, 9, 10, 11, 12, 13, 14, 15, 16, 17, 18, 19, 20 :: int]
      = [16, 17, 18, 19, 20]"
  using output_projection_trim[of 2 "[7, 8, 9 :: int]"]
    output_projection_trim[of 5
      "[1, 2, 3, 4, 5, 6, 7, 8, 9, 10, 11, 12, 13, 14, 15, 16, 17, 18, 19, 20 :: int]"]
  by simp

text \<open>
  The claim as stated fails for a requested window that is not positive: a window of 0
  counts as no window and the whole series is output, and a negative window drops rows
  from the front instead.
\<close>

theorem output_projection_nonpositive_window:
  "output_projection (Some 0) [7, 8, 9 :: int] = [7, 8, 9]
   \<and> output_projection (Some (- 1)) [7, 8, 9 :: int] = [8, 9]"
  by (simp add: output_projection_def tail_def)

section \<open>The whole run on two records\<close>

text \<open>
  Claim C2 (end-to-end scenario), as amended. For the two input lines with timestamps
  2020-01-01T00:00:00 (duration 5) and 2020-01-01T00:02:30 (duration 15) and default
  options, the durations resample to the buckets 00:01 with mean 5 and 00:03 with mean
  15; the bucket 00:02 is filled with 5; the run emits three rows, 00:01 with average 5
  (the first row, its own duration), 00:02 with average 5 and 00:03 with average 10.
\<close>

theorem end_to_end_scenario:
  "engine iso_to_datetime simple_search [''events.json'' \<mapsto> two_lines]
     (setup_defaults ''events.json'')
     = Inr [(1577836860000000000, Some 5), (1577836920000000000, Some 5),
            (1577836980000000000, Some 10)]
   \<and> iso_instant ''2020-01-01T00:01:00'' = Some 1577836860000000000
   \<and> iso_instant ''2020-01-01T00:02:00'' = Some 1577836920000000000
   \<and> iso_instant ''2020-01-01T00:03:00'' = Some 1577836980000000000
   \<and> map (to_event iso_to_datetime) (decoded two_lines)
       = [Some ((at_minute 26297280)\<lparr>duration := 5\<rparr>),
          Some ((at_minute 26297280)\<lparr>date := 1577836950000000000, duration := 15\<rparr>)]
   \<and> bucket_means [(1577836800000000000, 5), (1577836950000000000, 15)]
       = [(1577836860000000000, 5), (1577836980000000000, 15)]
   \<and> resample_closed_right_pad [(1577836860000000000, 5), (1577836980000000000, 15)]
       = [(1577836860000000000, Some 5), (1577836920000000000, Some 5),
          (1577836980000000000, Some 15)]"
  by code_simp

text \<open>The claim as stated fails on the number of rows: the run emits three, not two.\<close>

theorem end_to_end_three_rows:
  "length (output_rows (engine iso_to_datetime simple_search [''events.json'' \<mapsto> two_lines]
     (setup_defaults ''events.json''))) = 3
   \<and> length (output_rows (engine iso_to_datetime simple_search [''events.json'' \<mapsto> two_lines]
     (setup_defaults ''events.json''))) \<noteq> 2"
  by code_simp

end
